theory Spec2Isabelle
  imports Complex_Main "HOL-Library.Monad_Syntax"
begin

section \<open>The particle canvas of the portfolio site\<close>

text \<open>
  The module \<^verbatim>\<open>particles\<close> (the second document of \<^verbatim>\<open>src/unnamed/part_001\<close>) draws a
  constellation of moving dots on a canvas. This theory embeds its particle store, its
  physics step, its animation-frame driver and its exported initializer, and proves the
  properties the specification states about them.

  JavaScript numbers are modelled as the real numbers: the physics below uses addition,
  multiplication, comparison, \<^verbatim>\<open>Math.sqrt\<close>, \<^verbatim>\<open>Math.min\<close> and \<^verbatim>\<open>Math.max\<close>, and every
  statement proved here is about the order of those values, not about rounding. The one
  place where a JavaScript number would stop being a number, a division whose divisor is
  zero, is made visible: \<open>js_div\<close> returns \<open>None\<close> there, and the physics step
  propagates it.
\<close>

subsection \<open>Constants (lines 32 to 48)\<close>

definition MAX_PARTICLES :: int where "MAX_PARTICLES = 60"
definition PARTICLE_SPEED :: real where "PARTICLE_SPEED = 3 / 10"
definition CONNECTION_DISTANCE :: real where "CONNECTION_DISTANCE = 120"
definition MOUSE_INFLUENCE_RADIUS :: real where "MOUSE_INFLUENCE_RADIUS = 150"
definition MOUSE_REPEL_STRENGTH :: real where "MOUSE_REPEL_STRENGTH = 2 / 100"
definition VELOCITY_CENTER :: real where "VELOCITY_CENTER = 5 / 10"
definition PIXELS_PER_PARTICLE :: real where "PIXELS_PER_PARTICLE = 15000"
definition LINE_OPACITY_FACTOR :: real where "LINE_OPACITY_FACTOR = 5 / 10"
definition MOUSE_OFFSCREEN :: real where "MOUSE_OFFSCREEN = - 1000"
definition VELOCITY_DAMPING :: real where "VELOCITY_DAMPING = 99 / 100"
definition PARTICLE_RADIUS_BASE :: real where "PARTICLE_RADIUS_BASE = 1"
definition PARTICLE_RADIUS_RANGE :: real where "PARTICLE_RADIUS_RANGE = 2"
definition SPEED_LIMIT_FACTOR :: real where "SPEED_LIMIT_FACTOR = 2"

lemmas constants =
  MAX_PARTICLES_def PARTICLE_SPEED_def CONNECTION_DISTANCE_def MOUSE_INFLUENCE_RADIUS_def
  MOUSE_REPEL_STRENGTH_def VELOCITY_CENTER_def PIXELS_PER_PARTICLE_def
  LINE_OPACITY_FACTOR_def MOUSE_OFFSCREEN_def VELOCITY_DAMPING_def
  PARTICLE_RADIUS_BASE_def PARTICLE_RADIUS_RANGE_def SPEED_LIMIT_FACTOR_def

subsection \<open>Particles and their creation (lines 88 to 103)\<close>

text \<open>The object literal of \<^verbatim>\<open>createParticle\<close>: fields \<^verbatim>\<open>x, y, vx, vy, radius\<close>.\<close>

record particle =
  p_x :: real
  p_y :: real
  p_vx :: real
  p_vy :: real
  p_radius :: real

text \<open>
  \<^verbatim>\<open>Math.random()\<close> is a stream of draws: \<open>rnd k\<close> is the value of the \<open>k\<close>-th call.
  \<open>createParticle\<close> makes five calls, in the order of the fields of the literal; the
  particle made at position \<open>i\<close> of a batch that starts at draw \<open>base\<close> uses the draws
  \<open>base + 5 * i\<close> to \<open>base + 5 * i + 4\<close>.
\<close>

definition createParticle :: "nat \<Rightarrow> nat \<Rightarrow> (nat \<Rightarrow> real) \<Rightarrow> nat \<Rightarrow> particle" where
  "createParticle innerWidth innerHeight rnd k =
     \<lparr> p_x = rnd k * real innerWidth,
       p_y = rnd (k + 1) * real innerHeight,
       p_vx = (rnd (k + 2) - VELOCITY_CENTER) * PARTICLE_SPEED,
       p_vy = (rnd (k + 3) - VELOCITY_CENTER) * PARTICLE_SPEED,
       p_radius = rnd (k + 4) * PARTICLE_RADIUS_RANGE + PARTICLE_RADIUS_BASE \<rparr>"

text \<open>
  The target count of line 101. \<^verbatim>\<open>window.innerWidth\<close> and \<^verbatim>\<open>window.innerHeight\<close> are
  the viewport's size in CSS pixels, non-negative integers; the quotient is a division of
  numbers followed by \<^verbatim>\<open>Math.floor\<close>.
\<close>

definition particleCount :: "nat \<Rightarrow> nat \<Rightarrow> int" where
  "particleCount innerWidth innerHeight =
     min MAX_PARTICLES \<lfloor>real innerWidth * real innerHeight / PIXELS_PER_PARTICLE\<rfloor>"

text \<open>
  \<^verbatim>\<open>Array.from({ length: count }, createParticle)\<close>: one call of \<open>createParticle\<close> for
  each index below \<open>count\<close>, in order. A length that is not positive gives the empty array.
\<close>

definition initParticles :: "nat \<Rightarrow> nat \<Rightarrow> (nat \<Rightarrow> real) \<Rightarrow> nat \<Rightarrow> particle list" where
  "initParticles innerWidth innerHeight rnd base =
     map (\<lambda>i. createParticle innerWidth innerHeight rnd (base + 5 * i))
       [0 ..< nat (particleCount innerWidth innerHeight)]"

subsection \<open>The physics step (lines 106 to 135)\<close>

text \<open>
  Division of numbers. JavaScript gives \<^verbatim>\<open>NaN\<close> or an infinity for a zero divisor; the
  model reports that case as \<open>None\<close>.
\<close>

definition js_div :: "real \<Rightarrow> real \<Rightarrow> real option" where
  "js_div a b = (if b = 0 then None else Some (a / b))"

text \<open>Lines 111 to 118: the repulsion away from the pointer.\<close>

definition repel :: "real \<Rightarrow> real \<Rightarrow> particle \<Rightarrow> particle option" where
  "repel mouseX mouseY p =
     (let dx = p_x p - mouseX;
          dy = p_y p - mouseY;
          dist = sqrt (dx * dx + dy * dy)
      in if dist < MOUSE_INFLUENCE_RADIUS \<and> dist > 0
         then do {
           ux \<leftarrow> js_div dx dist;
           uy \<leftarrow> js_div dy dist;
           Some (p\<lparr> p_vx := p_vx p + ux * MOUSE_REPEL_STRENGTH,
                    p_vy := p_vy p + uy * MOUSE_REPEL_STRENGTH \<rparr>)
         }
         else Some p)"

text \<open>Lines 120 and 121: one frame of explicit Euler integration.\<close>

definition integrate :: "particle \<Rightarrow> particle" where
  "integrate p = p\<lparr> p_x := p_x p + p_vx p, p_y := p_y p + p_vy p \<rparr>"

text \<open>Lines 123 to 125: the speed limit on each axis.\<close>

definition limitSpeed :: "particle \<Rightarrow> particle" where
  "limitSpeed p =
     (let speedLimit = PARTICLE_SPEED * SPEED_LIMIT_FACTOR
      in p\<lparr> p_vx := max (- speedLimit) (min speedLimit (p_vx p)),
             p_vy := max (- speedLimit) (min speedLimit (p_vy p)) \<rparr>)"

text \<open>Lines 127 and 128: damping.\<close>

definition damp :: "particle \<Rightarrow> particle" where
  "damp p = p\<lparr> p_vx := p_vx p * VELOCITY_DAMPING, p_vy := p_vy p * VELOCITY_DAMPING \<rparr>"

text \<open>
  Lines 130 to 133: the wrap. The four tests run in sequence, each on the value the
  previous one left.
\<close>

definition wrap :: "real \<Rightarrow> real \<Rightarrow> particle \<Rightarrow> particle" where
  "wrap width height p =
     (let p1 = (if p_x p < 0 then p\<lparr> p_x := width \<rparr> else p);
          p2 = (if p_x p1 > width then p1\<lparr> p_x := 0 \<rparr> else p1);
          p3 = (if p_y p2 < 0 then p2\<lparr> p_y := height \<rparr> else p2);
          p4 = (if p_y p3 > height then p3\<lparr> p_y := 0 \<rparr> else p3)
      in p4)"

text \<open>The body of the \<^verbatim>\<open>forEach\<close> callback, for one particle.\<close>

definition updateParticle :: "real \<Rightarrow> real \<Rightarrow> real \<Rightarrow> real \<Rightarrow> particle \<Rightarrow> particle option" where
  "updateParticle width height mouseX mouseY p =
     do {
       q \<leftarrow> repel mouseX mouseY p;
       Some (wrap width height (damp (limitSpeed (integrate q))))
     }"

text \<open>\<^verbatim>\<open>particles.forEach\<close>: the callback runs on every element, in order, in place.\<close>

fun updateParticles :: "real \<Rightarrow> real \<Rightarrow> real \<Rightarrow> real \<Rightarrow> particle list \<Rightarrow> particle list option" where
  "updateParticles width height mouseX mouseY [] = Some []"
| "updateParticles width height mouseX mouseY (p # ps) =
     do {
       p' \<leftarrow> updateParticle width height mouseX mouseY p;
       ps' \<leftarrow> updateParticles width height mouseX mouseY ps;
       Some (p' # ps')
     }"

text \<open>
  Any number of physics steps on a viewport of fixed size: the pointer may move between
  frames, so a run is given by the pointer position \<open>(mouseX, mouseY)\<close> seen by each step.
\<close>

fun steps :: "real \<Rightarrow> real \<Rightarrow> (real \<times> real) list \<Rightarrow> particle list \<Rightarrow> particle list option" where
  "steps width height [] ps = Some ps"
| "steps width height (m # ms) ps =
     do {
       ps' \<leftarrow> updateParticles width height (fst m) (snd m) ps;
       steps width height ms ps'
     }"

subsection \<open>Predicates of the specification\<close>

text \<open>A position inside the viewport rectangle, both edges included.\<close>

definition inViewport :: "real \<Rightarrow> real \<Rightarrow> particle \<Rightarrow> bool" where
  "inViewport width height p \<longleftrightarrow>
     0 \<le> p_x p \<and> p_x p \<le> width \<and> 0 \<le> p_y p \<and> p_y p \<le> height"

text \<open>Both velocity components within the speed limit of line 123.\<close>

definition withinSpeedLimit :: "particle \<Rightarrow> bool" where
  "withinSpeedLimit p \<longleftrightarrow>
     \<bar>p_vx p\<bar> \<le> SPEED_LIMIT_FACTOR * PARTICLE_SPEED \<and>
     \<bar>p_vy p\<bar> \<le> SPEED_LIMIT_FACTOR * PARTICLE_SPEED"

subsection \<open>The page around the module\<close>

text \<open>
  What the module does to its environment is recorded as a trace of invocations, oldest
  first: the browser interfaces it calls, with the handle a frame request returned, and
  one marker for each invocation of the physics step. From \<^verbatim>\<open>draw\<close> the trace keeps the
  geometry and the opacity of what is painted, not the colour strings.
\<close>

datatype target = Window | Document | CanvasParent

datatype call =
    MatchMedia
  | GetElementById
  | GetContext
  | SetCanvasSize real real
  | CtxScale real real
  | SetCanvasStyle nat nat
  | AddEventListener target string
  | RequestAnimationFrame nat
  | CancelAnimationFrame nat
  | UpdateParticles
  | GetComputedStyle
  | ClearRect nat nat
  | Stroke real real real real real
  | Fill real real real

text \<open>
  The environment: the viewport, what the page answers to the three queries of the
  exported initializer, the draws of \<^verbatim>\<open>Math.random\<close> and how many were consumed, the
  browser's list of animation-frame callbacks of this module that are scheduled and not
  yet run or cancelled (by handle, oldest first), the last handle it gave out, and the
  trace.
\<close>

record world =
  innerWidth :: nat
  innerHeight :: nat
  devicePixelRatio :: real
  reducedMotion :: bool
  canvasPresent :: bool
  contextAvailable :: bool
  mathRandom :: "nat \<Rightarrow> real"
  draws :: nat
  frameCallbacks :: "nat list"
  lastHandle :: nat
  calls :: "call list"

text \<open>The variables of the closure of \<^verbatim>\<open>createParticleSystem\<close> (lines 60 to 64).\<close>

record sys =
  particles :: "particle list"
  mouseX :: real
  mouseY :: real
  animationId :: "nat option"
  isVisible :: bool

definition record_call :: "call \<Rightarrow> world \<Rightarrow> world" where
  "record_call c e = e\<lparr> calls := calls e @ [c] \<rparr>"

text \<open>
  \<^verbatim>\<open>requestAnimationFrame\<close>: the browser increments its identifier, appends the callback
  to its list under that identifier and returns it; the identifier is therefore never
  zero. \<^verbatim>\<open>cancelAnimationFrame\<close> removes the callback with the given handle, if any.
\<close>

definition requestAnimationFrame :: "world \<Rightarrow> nat \<times> world" where
  "requestAnimationFrame e =
     (let h = lastHandle e + 1
      in (h, record_call (RequestAnimationFrame h)
               (e\<lparr> lastHandle := h, frameCallbacks := frameCallbacks e @ [h] \<rparr>)))"

definition cancelAnimationFrame :: "nat \<Rightarrow> world \<Rightarrow> world" where
  "cancelAnimationFrame h e =
     record_call (CancelAnimationFrame h) (e\<lparr> frameCallbacks := removeAll h (frameCallbacks e) \<rparr>)"

text \<open>
  The truth value of \<^verbatim>\<open>animationId\<close> in a condition: \<^verbatim>\<open>null\<close> and the number zero are
  false, every other handle is true.
\<close>

definition truthy :: "nat option \<Rightarrow> bool" where
  "truthy a = (case a of None \<Rightarrow> False | Some h \<Rightarrow> h \<noteq> 0)"

subsection \<open>The closure's functions (lines 78 to 197)\<close>

text \<open>\<^verbatim>\<open>resize\<close>, lines 79 to 86; \<^verbatim>\<open>window.devicePixelRatio || 1\<close> replaces a zero ratio by 1.\<close>

definition resize :: "world \<Rightarrow> world" where
  "resize e =
     (let dpr = (if devicePixelRatio e = 0 then 1 else devicePixelRatio e)
      in record_call (SetCanvasStyle (innerWidth e) (innerHeight e))
           (record_call (CtxScale dpr dpr)
             (record_call (SetCanvasSize (real (innerWidth e) * dpr) (real (innerHeight e) * dpr))
               e)))"

text \<open>
  The closure's \<^verbatim>\<open>initParticles\<close>, lines 100 to 103, as a state change: it replaces the
  particle array and consumes five draws for each particle.
\<close>

definition initParticles_store :: "sys \<times> world \<Rightarrow> sys \<times> world" where
  "initParticles_store ce =
     (case ce of (c, e) \<Rightarrow>
        (let ps = initParticles (innerWidth e) (innerHeight e) (mathRandom e) (draws e)
         in (c\<lparr> particles := ps \<rparr>, e\<lparr> draws := draws e + 5 * length ps \<rparr>)))"

text \<open>
  \<^verbatim>\<open>draw\<close>, lines 138 to 170. The connecting lines: for every pair \<open>i < j\<close>, in the order
  of the two nested iterations, a stroke when the distance is below \<open>CONNECTION_DISTANCE\<close>.
\<close>

definition drawLink :: "particle \<Rightarrow> particle \<Rightarrow> call list" where
  "drawLink a b =
     (let dx = p_x a - p_x b;
          dy = p_y a - p_y b;
          dist = sqrt (dx * dx + dy * dy)
      in if dist < CONNECTION_DISTANCE
         then [Stroke (p_x a) (p_y a) (p_x b) (p_y b)
                 ((1 - dist / CONNECTION_DISTANCE) * LINE_OPACITY_FACTOR)]
         else [])"

fun drawLinks :: "particle list \<Rightarrow> call list" where
  "drawLinks [] = []"
| "drawLinks (a # ps) = concat (map (drawLink a) ps) @ drawLinks ps"

definition draw :: "sys \<Rightarrow> world \<Rightarrow> world" where
  "draw c e =
     e\<lparr> calls := calls e @ [GetComputedStyle, ClearRect (innerWidth e) (innerHeight e)]
           @ drawLinks (particles c)
           @ map (\<lambda>p. Fill (p_x p) (p_y p) (p_radius p)) (particles c) \<rparr>"

text \<open>
  \<^verbatim>\<open>animate\<close>, lines 173 to 180. The result is \<open>None\<close> only if the physics step divides
  by zero.
\<close>

definition animate :: "sys \<times> world \<Rightarrow> (sys \<times> world) option" where
  "animate ce =
     (case ce of (c, e) \<Rightarrow>
        if \<not> isVisible c then Some (c, e)
        else do {
          ps \<leftarrow> updateParticles (real (innerWidth e)) (real (innerHeight e))
                  (mouseX c) (mouseY c) (particles c);
          let c1 = c\<lparr> particles := ps \<rparr>;
          let e1 = draw c1 (record_call UpdateParticles e);
          let (h, e2) = requestAnimationFrame e1;
          Some (c1\<lparr> animationId := Some h \<rparr>, e2)
        })"

text \<open>\<^verbatim>\<open>start\<close>, lines 183 to 188.\<close>

definition start :: "sys \<times> world \<Rightarrow> (sys \<times> world) option" where
  "start ce =
     (case ce of (c, e) \<Rightarrow>
        (let c1 = c\<lparr> isVisible := True \<rparr>
         in if \<not> truthy (animationId c1) then animate (c1, e) else Some (c1, e)))"

text \<open>\<^verbatim>\<open>stop\<close>, lines 191 to 197.\<close>

definition stop :: "sys \<times> world \<Rightarrow> sys \<times> world" where
  "stop ce =
     (case ce of (c, e) \<Rightarrow>
        (let c1 = c\<lparr> isVisible := False \<rparr>
         in case animationId c1 of
              None \<Rightarrow> (c1, e)
            | Some h \<Rightarrow>
                if truthy (Some h)
                then (c1\<lparr> animationId := None \<rparr>, cancelAnimationFrame h e)
                else (c1, e)))"

text \<open>
  \<^verbatim>\<open>createParticleSystem\<close>, lines 54 to 228: \<open>None\<close> is the \<^verbatim>\<open>null\<close> of line 57, \<open>Some c\<close>
  the closure behind the handle \<^verbatim>\<open>{ start, stop, resize }\<close>.
\<close>

definition createParticleSystem :: "world \<Rightarrow> sys option \<times> world" where
  "createParticleSystem e =
     (let e1 = record_call GetContext e
      in if \<not> contextAvailable e then (None, e1)
         else
           (let c0 = \<lparr> particles = [], mouseX = MOUSE_OFFSCREEN, mouseY = MOUSE_OFFSCREEN,
                       animationId = None, isVisible = True \<rparr>;
                (c1, e2) = initParticles_store (c0, resize e1);
                e3 = record_call (AddEventListener Window ''resize'') e2;
                e4 = record_call (AddEventListener CanvasParent ''mousemove'') e3;
                e5 = record_call (AddEventListener CanvasParent ''mouseleave'') e4;
                e6 = record_call (AddEventListener Document ''visibilitychange'') e5
            in (Some c1, e6)))"

text \<open>
  The exported \<^verbatim>\<open>initParticles\<close>, lines 234 to 249 (the closure has a function of the
  same name, above). The handle is a local constant: after \<^verbatim>\<open>system.start()\<close> only the
  listeners reach the closure.
\<close>

definition initParticles_exported :: "world \<Rightarrow> (sys option \<times> world) option" where
  "initParticles_exported e =
     (let e1 = record_call MatchMedia e
      in if reducedMotion e then Some (None, e1)
         else
           (let e2 = record_call GetElementById e1
            in if \<not> canvasPresent e then Some (None, e2)
               else (case createParticleSystem e2 of
                       (None, e3) \<Rightarrow> Some (None, e3)
                     | (Some c, e3) \<Rightarrow>
                         map_option (\<lambda>(c', e'). (Some c', e')) (start (c, e3)))))"

subsection \<open>Events\<close>

text \<open>
  What can happen to a page after the initializer ran. \<open>Start\<close> and \<open>Stop\<close> are calls of
  the handle's functions (the page makes none besides the first \<^verbatim>\<open>start\<close>, so these
  events only add behaviours); \<open>Frame h\<close> is the browser running the animation-frame callback
  with handle \<open>h\<close>; \<open>VisibilityChange hidden\<close> is the \<^verbatim>\<open>visibilitychange\<close> event with
  \<^verbatim>\<open>document.hidden\<close> as given; \<open>ViewportResized\<close> gives the window a new size and
  \<open>ResizeCallback\<close> is the resize handler of lines 202 to 205 running. That handler is
  wrapped by \<^verbatim>\<open>debounce\<close> of \<^verbatim>\<open>utils.js\<close>, which only decides when it runs; here it
  may run at any moment, which covers every schedule a debounce can produce.
\<close>

datatype event =
    Start
  | Stop
  | Frame nat
  | MouseMove real real
  | MouseLeave
  | VisibilityChange bool
  | ViewportResized nat nat
  | ResizeCallback

text \<open>
  The browser runs a frame callback only while it is in its list, and takes it out of
  the list before the call.
\<close>

fun handle :: "event \<Rightarrow> sys \<times> world \<Rightarrow> (sys \<times> world) option" where
  "handle Start (c, e) = start (c, e)"
| "handle Stop (c, e) = Some (stop (c, e))"
| "handle (Frame h) (c, e) =
     (if h \<in> set (frameCallbacks e)
      then animate (c, e\<lparr> frameCallbacks := removeAll h (frameCallbacks e) \<rparr>)
      else Some (c, e))"
| "handle (MouseMove clientX clientY) (c, e) = Some (c\<lparr> mouseX := clientX, mouseY := clientY \<rparr>, e)"
| "handle MouseLeave (c, e) = Some (c\<lparr> mouseX := MOUSE_OFFSCREEN, mouseY := MOUSE_OFFSCREEN \<rparr>, e)"
| "handle (VisibilityChange hidden) (c, e) =
     (if hidden then Some (stop (c, e)) else start (c, e))"
| "handle (ViewportResized w h) (c, e) = Some (c, e\<lparr> innerWidth := w, innerHeight := h \<rparr>)"
| "handle ResizeCallback (c, e) = Some (initParticles_store (c, resize e))"

text \<open>
  Without a particle system no listener is attached and there is no handle: only the
  window changes.
\<close>

fun deliver :: "event \<Rightarrow> sys option \<times> world \<Rightarrow> (sys option \<times> world) option" where
  "deliver ev (Some c, e) = map_option (\<lambda>(c', e'). (Some c', e')) (handle ev (c, e))"
| "deliver (ViewportResized w h) (None, e) = Some (None, e\<lparr> innerWidth := w, innerHeight := h \<rparr>)"
| "deliver ev (None, e) = Some (None, e)"

fun run :: "event list \<Rightarrow> sys option \<times> world \<Rightarrow> (sys option \<times> world) option" where
  "run [] s = Some s"
| "run (ev # evs) s = do { s' \<leftarrow> deliver ev s; run evs s' }"

text \<open>The life of a page: the exported initializer, then events.\<close>

definition page :: "world \<Rightarrow> event list \<Rightarrow> (sys option \<times> world) option" where
  "page e evs = do { s \<leftarrow> initParticles_exported e; run evs s }"

text \<open>
  The probe on the trace: the invocations that belong to a frame, that is the physics
  step, everything \<^verbatim>\<open>draw\<close> calls, and the request for the next frame.
\<close>

fun frameWork :: "call \<Rightarrow> bool" where
  "frameWork UpdateParticles = True"
| "frameWork GetComputedStyle = True"
| "frameWork (ClearRect w h) = True"
| "frameWork (Stroke x1 y1 x2 y2 opacity) = True"
| "frameWork (Fill x1 y1 r) = True"
| "frameWork (RequestAnimationFrame h) = True"
| "frameWork c = False"

definition frameTrace :: "world \<Rightarrow> call list" where
  "frameTrace e = filter frameWork (calls e)"

text \<open>An event that does not call \<^verbatim>\<open>start\<close>.\<close>

fun startless :: "event \<Rightarrow> bool" where
  "startless Start = False"
| "startless (VisibilityChange hidden) = hidden"
| "startless ev = True"

subsection \<open>Invariants of the animation loop\<close>

text \<open>
  The scheduling invariant of a particle system: either no frame callback is scheduled
  and \<^verbatim>\<open>animationId\<close> is \<^verbatim>\<open>null\<close>, or exactly one is scheduled, \<^verbatim>\<open>animationId\<close> holds its
  handle, and the system is visible.
\<close>

definition scheduled_once :: "sys \<times> world \<Rightarrow> bool" where
  "scheduled_once ce =
     (case ce of (c, e) \<Rightarrow>
        (case frameCallbacks e of
           [] \<Rightarrow> animationId c = None
         | [h] \<Rightarrow> animationId c = Some h \<and> h \<noteq> 0 \<and> isVisible c
         | _ \<Rightarrow> False))"

definition page_ok :: "sys option \<times> world \<Rightarrow> bool" where
  "page_ok s =
     (case s of
        (None, e) \<Rightarrow> frameCallbacks e = []
      | (Some c, e) \<Rightarrow> scheduled_once (c, e))"

text \<open>A page whose loop is stopped: not visible, nothing scheduled.\<close>

definition page_stopped :: "sys option \<times> world \<Rightarrow> bool" where
  "page_stopped s =
     (case s of
        (None, e) \<Rightarrow> frameCallbacks e = []
      | (Some c, e) \<Rightarrow> \<not> isVisible c \<and> frameCallbacks e = [])"

text \<open>
  A page to run the model on: a viewport of 200 by 100 pixels, room for one particle,
  every draw of \<^verbatim>\<open>Math.random\<close> equal to one half.
\<close>

definition examplePage :: world where
  "examplePage =
     \<lparr> innerWidth = 200, innerHeight = 100, devicePixelRatio = 2,
       reducedMotion = False, canvasPresent = True, contextAvailable = True,
       mathRandom = (\<lambda>k. 1 / 2), draws = 0,
       frameCallbacks = [], lastHandle = 0, calls = [] \<rparr>"

section \<open>The physics step\<close>

subsection \<open>The repulsion never divides by zero\<close>

lemma repel_cases:
  "repel mx my p = Some p \<or>
   (\<exists>d. d > 0 \<and> d < MOUSE_INFLUENCE_RADIUS \<and>
      d = sqrt ((p_x p - mx) * (p_x p - mx) + (p_y p - my) * (p_y p - my)) \<and>
      repel mx my p =
        Some (p\<lparr> p_vx := p_vx p + (p_x p - mx) / d * MOUSE_REPEL_STRENGTH,
                 p_vy := p_vy p + (p_y p - my) / d * MOUSE_REPEL_STRENGTH \<rparr>))"
  by (auto simp: repel_def js_div_def Let_def)

lemma repel_total:
  "\<exists>q. repel mx my p = Some q \<and> p_x q = p_x p \<and> p_y q = p_y p \<and> p_radius q = p_radius p"
  using repel_cases [of mx my p] by auto

lemma updateParticle_total:
  "\<exists>q. repel mx my p = Some q \<and>
     updateParticle w h mx my p = Some (wrap w h (damp (limitSpeed (integrate q))))"
  using repel_total [of mx my p] by (auto simp: updateParticle_def)

lemma updateParticles_total:
  "\<exists>ps'. updateParticles w h mx my ps = Some ps' \<and>
     list_all2 (\<lambda>p p'. updateParticle w h mx my p = Some p') ps ps'"
proof (induction ps)
  case Nil
  show ?case by simp
next
  case (Cons p ps)
  obtain p' where p': "updateParticle w h mx my p = Some p'"
    using updateParticle_total [of mx my p w h] by auto
  from Cons obtain ps' where "updateParticles w h mx my ps = Some ps'"
    "list_all2 (\<lambda>p p'. updateParticle w h mx my p = Some p') ps ps'" by auto
  with p' show ?case by simp
qed

lemma steps_total: "\<exists>ps'. steps w h ms ps = Some ps'"
proof (induction ms arbitrary: ps)
  case Nil
  show ?case by simp
next
  case (Cons m ms)
  obtain ps1 where "updateParticles w h (fst m) (snd m) ps = Some ps1"
    using updateParticles_total by blast
  with Cons [of ps1] show ?case by simp
qed

text \<open>
  C6. A particle exactly at the pointer (distance zero) receives no repulsion impulse:
  the repulsion returns it unchanged. The division by the distance is never evaluated
  with a zero divisor: for every particle and every pointer position the repulsion
  returns a particle, and so does any run of physics steps on any particle list.
\<close>

theorem repel_no_division_by_zero:
  "(\<exists>q. repel mx my p = Some q) \<and>
   (\<exists>ps'. steps w h ms ps = Some ps') \<and>
   (p_x p = mx \<and> p_y p = my \<longrightarrow> repel mx my p = Some p)"
  using repel_total [of mx my p] steps_total [of w h ms ps] by (auto simp: repel_def)

theorem repel_no_division_by_zero_witness:
  "p_x \<lparr> p_x = 100, p_y = 100, p_vx = 1 / 8, p_vy = 0, p_radius = 1 \<rparr> = 100 \<and>
   p_y \<lparr> p_x = 100, p_y = 100, p_vx = 1 / 8, p_vy = 0, p_radius = 1 \<rparr> = 100 \<and>
   repel 100 100 \<lparr> p_x = 100, p_y = 100, p_vx = 1 / 8, p_vy = 0, p_radius = 1 \<rparr>
     = Some \<lparr> p_x = 100, p_y = 100, p_vx = 1 / 8, p_vy = 0, p_radius = 1 \<rparr>"
  using repel_no_division_by_zero
    [of 100 100 "\<lparr> p_x = 100, p_y = 100, p_vx = 1 / 8, p_vy = 0, p_radius = 1 \<rparr>"]
  by simp

subsection \<open>What one step does to every particle\<close>

lemma updateParticles_all:
  assumes "\<And>p p'. updateParticle w h mx my p = Some p' \<Longrightarrow> P p'"
  shows "\<exists>ps'. updateParticles w h mx my ps = Some ps' \<and> list_all P ps'"
proof -
  obtain ps' where s: "updateParticles w h mx my ps = Some ps'"
    and r: "list_all2 (\<lambda>p p'. updateParticle w h mx my p = Some p') ps ps'"
    using updateParticles_total by blast
  from r have "list_all P ps'"
    by (induction rule: list_all2_induct) (auto intro: assms)
  with s show ?thesis by simp
qed

lemma steps_all:
  assumes step: "\<And>mx my p p'. updateParticle w h mx my p = Some p' \<Longrightarrow> P p'"
    and start: "ms \<noteq> [] \<or> list_all P ps"
  shows "\<exists>ps'. steps w h ms ps = Some ps' \<and> list_all P ps'"
  using start
proof (induction ms arbitrary: ps)
  case Nil
  then show ?case by simp
next
  case (Cons m ms)
  obtain ps1 where 1: "updateParticles w h (fst m) (snd m) ps = Some ps1"
    and 2: "list_all P ps1"
    using updateParticles_all [of w h "fst m" "snd m" P ps] step by blast
  from Cons.IH [of ps1] 2 obtain ps' where "steps w h ms ps1 = Some ps'" "list_all P ps'"
    by blast
  with 1 show ?case by simp
qed

text \<open>
  C10. One physics step keeps the number of particles and the radius of every particle;
  the remaining fields of a particle are its position and its velocity.
\<close>

theorem updateParticles_frame:
  "\<exists>ps'. updateParticles w h mx my ps = Some ps' \<and>
     length ps' = length ps \<and> map p_radius ps' = map p_radius ps"
proof -
  obtain ps' where s: "updateParticles w h mx my ps = Some ps'"
    and r: "list_all2 (\<lambda>p p'. updateParticle w h mx my p = Some p') ps ps'"
    using updateParticles_total by blast
  have rad: "p_radius p' = p_radius p" if "updateParticle w h mx my p = Some p'" for p p'
    using that repel_total [of mx my p]
    by (auto simp: updateParticle_def wrap_def damp_def limitSpeed_def integrate_def Let_def)
  from r have "length ps' = length ps \<and> map p_radius ps' = map p_radius ps"
    by (induction rule: list_all2_induct) (auto simp: rad)
  with s show ?thesis by simp
qed

subsection \<open>The wrap\<close>

lemma wrap_velocity: "p_vx (wrap w h p) = p_vx p" "p_vy (wrap w h p) = p_vy p"
  by (simp_all add: wrap_def Let_def)

lemma wrap_x:
  "0 \<le> w \<Longrightarrow> p_x (wrap w h p) = (if p_x p < 0 then w else if p_x p > w then 0 else p_x p)"
  by (simp add: wrap_def Let_def)

lemma wrap_y:
  "0 \<le> h \<Longrightarrow> p_y (wrap w h p) = (if p_y p < 0 then h else if p_y p > h then 0 else p_y p)"
  by (simp add: wrap_def Let_def)

lemma wrap_inViewport: "0 \<le> w \<Longrightarrow> 0 \<le> h \<Longrightarrow> inViewport w h (wrap w h p)"
  by (simp add: inViewport_def wrap_x wrap_y)

lemma updateParticle_inViewport:
  "0 \<le> w \<Longrightarrow> 0 \<le> h \<Longrightarrow> updateParticle w h mx my p = Some p' \<Longrightarrow> inViewport w h p'"
  using updateParticle_total [of mx my p w h] by (auto simp: wrap_inViewport)

text \<open>The pointer at the off-screen sentinel is farther than the influence radius.\<close>

lemma sentinel_far:
  "\<not> sqrt ((1 / 16 - - 1000) * (1 / 16 - - 1000) + (100 - - 1000) * (100 - - 1000)) < 150"
proof -
  have "150 \<le> sqrt ((1 / 16 - - 1000) * (1 / 16 - - 1000) + (100 - - 1000) * (100 - - 1000))"
    by (rule real_le_rsqrt) simp
  then show ?thesis by simp
qed

lemma step_at_left_edge:
  "updateParticle 800 600 (- 1000) (- 1000)
     \<lparr> p_x = 1 / 16, p_y = 100, p_vx = - (1 / 8), p_vy = 0, p_radius = 1 \<rparr>
   = Some \<lparr> p_x = 800, p_y = 100, p_vx = - (99 / 800), p_vy = 0, p_radius = 1 \<rparr>"
  using sentinel_far
  by (simp add: updateParticle_def repel_def Let_def constants integrate_def limitSpeed_def
      damp_def wrap_def)

lemma updateParticle_position:
  assumes "0 \<le> w" "0 \<le> h"
  shows "\<exists>q p'. repel mx my p = Some q \<and> updateParticle w h mx my p = Some p' \<and>
     p_x p' = (if p_x p + p_vx q < 0 then w
               else if w < p_x p + p_vx q then 0 else p_x p + p_vx q) \<and>
     p_y p' = (if p_y p + p_vy q < 0 then h
               else if h < p_y p + p_vy q then 0 else p_y p + p_vy q)"
proof -
  obtain q where q: "repel mx my p = Some q" "p_x q = p_x p" "p_y q = p_y p"
    and u: "updateParticle w h mx my p = Some (wrap w h (damp (limitSpeed (integrate q))))"
    using repel_total [of mx my p] updateParticle_total [of mx my p w h] by auto
  have "p_x (damp (limitSpeed (integrate q))) = p_x p + p_vx q"
    "p_y (damp (limitSpeed (integrate q))) = p_y p + p_vy q"
    using q by (simp_all add: damp_def limitSpeed_def integrate_def Let_def)
  with q u assms show ?thesis by (simp add: wrap_x wrap_y)
qed

text \<open>
  C1, as the code has it. On a viewport of width \<open>w\<close> and height \<open>h\<close>, after any number
  of physics steps (at least one, or none from positions already inside) every particle
  has \<open>0 \<le> x \<le> w\<close> and \<open>0 \<le> y \<le> h\<close>: both edges belong to the range. A step moves a
  particle by its velocity after the repulsion and then wraps each axis by itself: a
  coordinate below \<open>0\<close> becomes the extent of the viewport, one above the extent becomes
  \<open>0\<close>, any other is kept (never clamped to the edge it left). The wrap changes neither
  velocity component, and what it does to one axis does not depend on the other.
\<close>

theorem wraparound_invariant:
  assumes "0 \<le> w" "0 \<le> h" "ms \<noteq> [] \<or> list_all (inViewport w h) ps"
  shows "(\<exists>ps'. steps w h ms ps = Some ps' \<and> list_all (inViewport w h) ps') \<and>
     (\<exists>q p'. repel mx my p = Some q \<and> updateParticle w h mx my p = Some p' \<and>
        p_x p' = (if p_x p + p_vx q < 0 then w
                  else if w < p_x p + p_vx q then 0 else p_x p + p_vx q) \<and>
        p_y p' = (if p_y p + p_vy q < 0 then h
                  else if h < p_y p + p_vy q then 0 else p_y p + p_vy q)) \<and>
     p_x (wrap w h p) = (if p_x p < 0 then w else if w < p_x p then 0 else p_x p) \<and>
     p_y (wrap w h p) = (if p_y p < 0 then h else if h < p_y p then 0 else p_y p) \<and>
     p_vx (wrap w h p) = p_vx p \<and> p_vy (wrap w h p) = p_vy p"
proof (intro conjI)
  show "\<exists>ps'. steps w h ms ps = Some ps' \<and> list_all (inViewport w h) ps'"
    using assms by (intro steps_all) (auto intro: updateParticle_inViewport)
  show "\<exists>q p'. repel mx my p = Some q \<and> updateParticle w h mx my p = Some p' \<and>
        p_x p' = (if p_x p + p_vx q < 0 then w
                  else if w < p_x p + p_vx q then 0 else p_x p + p_vx q) \<and>
        p_y p' = (if p_y p + p_vy q < 0 then h
                  else if h < p_y p + p_vy q then 0 else p_y p + p_vy q)"
    using assms(1,2) by (rule updateParticle_position)
  show "p_x (wrap w h p) = (if p_x p < 0 then w else if w < p_x p then 0 else p_x p)"
    using assms(1) by (rule wrap_x)
  show "p_y (wrap w h p) = (if p_y p < 0 then h else if h < p_y p then 0 else p_y p)"
    using assms(2) by (rule wrap_y)
  show "p_vx (wrap w h p) = p_vx p" "p_vy (wrap w h p) = p_vy p"
    by (rule wrap_velocity)+
qed

theorem wraparound_invariant_witness:
  "(0::real) \<le> 800 \<and> (0::real) \<le> 600 \<and> [(- 1000, - 1000)] \<noteq> ([]::(real \<times> real) list) \<and>
   (\<exists>ps'. steps 800 600 [(- 1000, - 1000)]
       [\<lparr> p_x = 1 / 16, p_y = 100, p_vx = - (1 / 8), p_vy = 0, p_radius = 1 \<rparr>] = Some ps' \<and>
      list_all (inViewport 800 600) ps') \<and>
   p_x (wrap 800 600 \<lparr> p_x = - (1 / 16), p_y = 100, p_vx = - (1 / 8), p_vy = 0, p_radius = 1 \<rparr>)
     = 800"
  using wraparound_invariant [of 800 600 "[(- 1000, - 1000)]"
      "[\<lparr> p_x = 1 / 16, p_y = 100, p_vx = - (1 / 8), p_vy = 0, p_radius = 1 \<rparr>]"
      "- 1000" "- 1000"
      "\<lparr> p_x = - (1 / 16), p_y = 100, p_vx = - (1 / 8), p_vy = 0, p_radius = 1 \<rparr>"]
  by simp

text \<open>
  The claim as the specification words it, \<open>x < w\<close>, fails: a particle at \<open>x = 1/16\<close>
  moving left with \<open>vx = -1/8\<close> on a viewport 800 wide, the pointer at the off-screen
  sentinel, leaves through the left edge and is put at \<open>x = 800\<close>, the width itself.
\<close>

theorem wraparound_strict_counterexample:
  "steps 800 600 [(- 1000, - 1000)]
     [\<lparr> p_x = 1 / 16, p_y = 100, p_vx = - (1 / 8), p_vy = 0, p_radius = 1 \<rparr>]
   = Some [\<lparr> p_x = 800, p_y = 100, p_vx = - (99 / 800), p_vy = 0, p_radius = 1 \<rparr>] \<and>
   \<not> p_x \<lparr> p_x = 800, p_y = 100, p_vx = - (99 / 800), p_vy = 0, p_radius = 1 \<rparr> < 800"
  by (simp add: step_at_left_edge)

subsection \<open>The speed limit\<close>

lemma limit_bound:
  "\<bar>max (- (PARTICLE_SPEED * SPEED_LIMIT_FACTOR)) (min (PARTICLE_SPEED * SPEED_LIMIT_FACTOR) v)
      * VELOCITY_DAMPING\<bar>
    \<le> SPEED_LIMIT_FACTOR * PARTICLE_SPEED"
  by (simp add: constants abs_le_iff max_def min_def)

lemma updateParticle_velocity:
  "\<exists>q p'. repel mx my p = Some q \<and> updateParticle w h mx my p = Some p' \<and>
     p_vx p' = max (- (PARTICLE_SPEED * SPEED_LIMIT_FACTOR))
                 (min (PARTICLE_SPEED * SPEED_LIMIT_FACTOR) (p_vx q)) * VELOCITY_DAMPING \<and>
     p_vy p' = max (- (PARTICLE_SPEED * SPEED_LIMIT_FACTOR))
                 (min (PARTICLE_SPEED * SPEED_LIMIT_FACTOR) (p_vy q)) * VELOCITY_DAMPING"
  using updateParticle_total [of mx my p w h]
  by (auto simp: wrap_velocity damp_def limitSpeed_def integrate_def Let_def)

lemma updateParticle_withinSpeedLimit:
  assumes "updateParticle w h mx my p = Some p'"
  shows "withinSpeedLimit p'"
  using updateParticle_velocity [of mx my p w h] assms limit_bound
  by (auto simp: withinSpeedLimit_def)

text \<open>
  C2. After every physics step of a run, both velocity components of every particle are
  at most \<open>SPEED_LIMIT_FACTOR * PARTICLE_SPEED\<close> in absolute value. The velocity a step
  leaves is the velocity after the repulsion, clamped to the speed limit, then damped:
  the clamp comes after the force and before the damping.
\<close>

theorem velocity_bounded:
  assumes "ms \<noteq> []"
  shows "(\<exists>ps'. steps w h ms ps = Some ps' \<and> list_all withinSpeedLimit ps') \<and>
     (\<exists>q p'. repel mx my p = Some q \<and> updateParticle w h mx my p = Some p' \<and>
        p_vx p' = max (- (PARTICLE_SPEED * SPEED_LIMIT_FACTOR))
                    (min (PARTICLE_SPEED * SPEED_LIMIT_FACTOR) (p_vx q)) * VELOCITY_DAMPING \<and>
        p_vy p' = max (- (PARTICLE_SPEED * SPEED_LIMIT_FACTOR))
                    (min (PARTICLE_SPEED * SPEED_LIMIT_FACTOR) (p_vy q)) * VELOCITY_DAMPING)"
proof
  show "\<exists>ps'. steps w h ms ps = Some ps' \<and> list_all withinSpeedLimit ps'"
    using assms by (intro steps_all) (auto intro: updateParticle_withinSpeedLimit)
  show "\<exists>q p'. repel mx my p = Some q \<and> updateParticle w h mx my p = Some p' \<and>
        p_vx p' = max (- (PARTICLE_SPEED * SPEED_LIMIT_FACTOR))
                    (min (PARTICLE_SPEED * SPEED_LIMIT_FACTOR) (p_vx q)) * VELOCITY_DAMPING \<and>
        p_vy p' = max (- (PARTICLE_SPEED * SPEED_LIMIT_FACTOR))
                    (min (PARTICLE_SPEED * SPEED_LIMIT_FACTOR) (p_vy q)) * VELOCITY_DAMPING"
    by (rule updateParticle_velocity)
qed

theorem velocity_bounded_witness:
  "[(100, 150)] \<noteq> ([]::(real \<times> real) list) \<and>
   (\<exists>ps'. steps 800 600 [(100, 150)]
       [\<lparr> p_x = 100, p_y = 100, p_vx = 5, p_vy = - 7, p_radius = 1 \<rparr>] = Some ps' \<and>
      list_all withinSpeedLimit ps')"
  using velocity_bounded [of "[(100, 150)]" 800 600
      "[\<lparr> p_x = 100, p_y = 100, p_vx = 5, p_vy = - 7, p_radius = 1 \<rparr>]"]
  by simp

subsection \<open>The pointer pushes a particle away\<close>

text \<open>
  C7. One particle at \<open>(100, 100)\<close> at rest, the pointer at \<open>(100, 100 + d)\<close> with
  \<open>0 < d < MOUSE_INFLUENCE_RADIUS\<close>: after one physics step \<open>vy\<close> is strictly negative
  (it is \<open>- MOUSE_REPEL_STRENGTH * VELOCITY_DAMPING\<close>), and \<open>vx\<close> is still zero.
\<close>

theorem pointer_repulsion:
  assumes "0 < d" "d < MOUSE_INFLUENCE_RADIUS"
  shows "\<exists>p'. updateParticles w h 100 (100 + d)
             [\<lparr> p_x = 100, p_y = 100, p_vx = 0, p_vy = 0, p_radius = r \<rparr>] = Some [p'] \<and>
     p_vy p' < 0 \<and> p_vy p' = - (MOUSE_REPEL_STRENGTH * VELOCITY_DAMPING) \<and> p_vx p' = 0"
  using assms
  by (simp add: updateParticle_def repel_def js_div_def Let_def wrap_velocity damp_def
      limitSpeed_def integrate_def)
     (simp add: constants)

theorem pointer_repulsion_witness:
  "(0::real) < 50 \<and> 50 < MOUSE_INFLUENCE_RADIUS \<and>
   (\<exists>p'. updateParticles 800 600 100 (100 + 50)
             [\<lparr> p_x = 100, p_y = 100, p_vx = 0, p_vy = 0, p_radius = 2 \<rparr>] = Some [p'] \<and>
     p_vy p' < 0)"
  using pointer_repulsion [of 50 800 600 2]
  by (auto simp: MOUSE_INFLUENCE_RADIUS_def)

subsection \<open>The particle store\<close>

lemma particleCount_div: "particleCount w h = min 60 (int ((w * h) div 15000))"
proof -
  have "\<lfloor>real w * real h / 15000\<rfloor> = \<lfloor>real (w * h) / real 15000\<rfloor>" by simp
  also have "\<dots> = int ((w * h) div 15000)" by (rule floor_divide_of_nat_eq)
  finally show ?thesis by (simp add: particleCount_def constants)
qed

text \<open>
  C3. For every viewport the count the initializer computes is
  \<open>min MAX_PARTICLES (floor (w * h / PIXELS_PER_PARTICLE))\<close>, that is the smaller of 60
  and the integer quotient of the area by 15000; it is never negative, never above
  \<open>MAX_PARTICLES\<close>, and it is the length of the array the initializer builds.
\<close>

theorem particle_count:
  "particleCount w h = min MAX_PARTICLES \<lfloor>real w * real h / PIXELS_PER_PARTICLE\<rfloor> \<and>
   particleCount w h = min 60 (int ((w * h) div 15000)) \<and>
   0 \<le> particleCount w h \<and> particleCount w h \<le> MAX_PARTICLES \<and>
   int (length (initParticles w h rnd base)) = particleCount w h"
proof -
  have d: "particleCount w h = min 60 (int ((w * h) div 15000))"
    by (rule particleCount_div)
  then have n: "0 \<le> particleCount w h" by simp
  have "particleCount w h \<le> MAX_PARTICLES" by (simp add: particleCount_def)
  with d n show ?thesis by (simp add: initParticles_def) (simp add: particleCount_def)
qed

subsection \<open>The initial store\<close>

text \<open>
  With draws of \<^verbatim>\<open>Math.random\<close> in \<open>[0, 1)\<close> every particle of a fresh store lies in
  the viewport and is within the speed limit.
\<close>

lemma createParticle_inViewport:
  assumes "\<And>k. 0 \<le> rnd k \<and> rnd k < 1"
  shows "inViewport (real iw) (real ih) (createParticle iw ih rnd k)"
proof -
  have "rnd k * real iw \<le> 1 * real iw" "rnd (k + 1) * real ih \<le> 1 * real ih"
    using assms by (intro mult_right_mono; simp add: less_imp_le)+
  with assms show ?thesis
    by (simp add: inViewport_def createParticle_def)
qed

lemma createParticle_withinSpeedLimit:
  assumes "\<And>k. 0 \<le> rnd k \<and> rnd k < 1"
  shows "withinSpeedLimit (createParticle iw ih rnd k)"
proof -
  have "0 \<le> rnd (k + 2) \<and> rnd (k + 2) < 1" "0 \<le> rnd (k + 3) \<and> rnd (k + 3) < 1"
    using assms by blast+
  then show ?thesis
    by (simp add: withinSpeedLimit_def createParticle_def constants abs_le_iff)
qed

lemma initParticles_inViewport:
  assumes "\<And>k. 0 \<le> rnd k \<and> rnd k < 1"
  shows "list_all (inViewport (real iw) (real ih)) (initParticles iw ih rnd base)"
  using createParticle_inViewport [OF assms]
  by (simp add: initParticles_def list_all_iff)

lemma initParticles_withinSpeedLimit:
  assumes "\<And>k. 0 \<le> rnd k \<and> rnd k < 1"
  shows "list_all withinSpeedLimit (initParticles iw ih rnd base)"
  using createParticle_withinSpeedLimit [OF assms]
  by (simp add: initParticles_def list_all_iff)

section \<open>The animation loop\<close>

subsection \<open>The example page, run\<close>

lemma examplePage_count: "particleCount 200 100 = 1"
  by (simp add: particleCount_div)

lemma examplePage_far: "\<not> sqrt (1100 * 1100 + 1050 * 1050) < 150"
proof -
  have "150 \<le> sqrt (1100 * 1100 + 1050 * 1050)"
    by (rule real_le_rsqrt) simp
  then show ?thesis by simp
qed

lemma examplePage_rest:
  "updateParticle 200 100 (- 1000) (- 1000)
     \<lparr> p_x = 100, p_y = 50, p_vx = 0, p_vy = 0, p_radius = 2 \<rparr>
   = Some \<lparr> p_x = 100, p_y = 50, p_vx = 0, p_vy = 0, p_radius = 2 \<rparr>"
  using examplePage_far
  by (simp add: updateParticle_def repel_def Let_def constants integrate_def limitSpeed_def
      damp_def wrap_def)

text \<open>
  The exported initializer on the example page: the queries, the canvas set up, one
  particle in the middle of the viewport, the four listeners, and the first frame run
  at once by \<^verbatim>\<open>start\<close>, which leaves one callback scheduled.
\<close>

lemma examplePage_boot:
  "initParticles_exported examplePage =
     Some (Some \<lparr> particles = [\<lparr> p_x = 100, p_y = 50, p_vx = 0, p_vy = 0, p_radius = 2 \<rparr>],
                  mouseX = - 1000, mouseY = - 1000, animationId = Some 1, isVisible = True \<rparr>,
           examplePage
             \<lparr> draws := 5, frameCallbacks := [1], lastHandle := 1,
               calls :=
                 [MatchMedia, GetElementById, GetContext, SetCanvasSize 400 200, CtxScale 2 2,
                  SetCanvasStyle 200 100, AddEventListener Window ''resize'',
                  AddEventListener CanvasParent ''mousemove'',
                  AddEventListener CanvasParent ''mouseleave'',
                  AddEventListener Document ''visibilitychange'', UpdateParticles,
                  GetComputedStyle, ClearRect 200 100, Fill 100 50 2,
                  RequestAnimationFrame 1] \<rparr>)"
  by (simp add: examplePage_def initParticles_exported_def createParticleSystem_def
      record_call_def Let_def resize_def initParticles_store_def initParticles_def
      examplePage_count createParticle_def start_def truthy_def animate_def draw_def
      requestAnimationFrame_def examplePage_rest constants)

text \<open>Then \<^verbatim>\<open>stop\<close>: the callback is cancelled, and the frame that was due does nothing.\<close>

lemma examplePage_stop:
  "page examplePage [Stop, Frame 1] =
     Some (Some \<lparr> particles = [\<lparr> p_x = 100, p_y = 50, p_vx = 0, p_vy = 0, p_radius = 2 \<rparr>],
                  mouseX = - 1000, mouseY = - 1000, animationId = None, isVisible = False \<rparr>,
           examplePage
             \<lparr> draws := 5, frameCallbacks := [], lastHandle := 1,
               calls :=
                 [MatchMedia, GetElementById, GetContext, SetCanvasSize 400 200, CtxScale 2 2,
                  SetCanvasStyle 200 100, AddEventListener Window ''resize'',
                  AddEventListener CanvasParent ''mousemove'',
                  AddEventListener CanvasParent ''mouseleave'',
                  AddEventListener Document ''visibilitychange'', UpdateParticles,
                  GetComputedStyle, ClearRect 200 100, Fill 100 50 2,
                  RequestAnimationFrame 1, CancelAnimationFrame 1] \<rparr>)"
  by (simp add: page_def examplePage_boot)
     (simp add: examplePage_def stop_def truthy_def cancelAnimationFrame_def record_call_def)

subsection \<open>The scheduling invariant\<close>

lemma scheduled_once_iff:
  "scheduled_once (c, e) \<longleftrightarrow>
     frameCallbacks e = [] \<and> animationId c = None \<or>
     (\<exists>h. frameCallbacks e = [h] \<and> animationId c = Some h \<and> h \<noteq> 0 \<and> isVisible c)"
  by (auto simp: scheduled_once_def split: list.splits)

lemma updateParticles_Some: "\<exists>ps'. updateParticles w h mx my ps = Some ps'"
  using updateParticles_total by blast

lemma animate_visible:
  assumes "isVisible c"
  shows "\<exists>ps. animate (c, e) =
     Some (c\<lparr> particles := ps, animationId := Some (lastHandle e + 1) \<rparr>,
           e\<lparr> lastHandle := lastHandle e + 1,
              frameCallbacks := frameCallbacks e @ [lastHandle e + 1],
              calls := calls e @ [UpdateParticles, GetComputedStyle,
                                  ClearRect (innerWidth e) (innerHeight e)]
                @ drawLinks ps @ map (\<lambda>p. Fill (p_x p) (p_y p) (p_radius p)) ps
                @ [RequestAnimationFrame (lastHandle e + 1)] \<rparr>)"
proof -
  obtain ps where "updateParticles (real (innerWidth e)) (real (innerHeight e))
                  (mouseX c) (mouseY c) (particles c) = Some ps"
    using updateParticles_Some by blast
  with assms show ?thesis
    by (intro exI [of _ ps])
       (simp add: animate_def draw_def record_call_def requestAnimationFrame_def Let_def)
qed

lemma animate_hidden: "\<not> isVisible c \<Longrightarrow> animate (c, e) = Some (c, e)"
  by (simp add: animate_def)

lemma animate_scheduled_once:
  assumes "frameCallbacks e = []" "isVisible c"
  shows "\<exists>c' e'. animate (c, e) = Some (c', e') \<and> scheduled_once (c', e')"
  using animate_visible [OF assms(2), of e] assms
  by (auto simp: scheduled_once_iff)

lemma start_scheduled_once:
  assumes "scheduled_once (c, e)"
  shows "\<exists>c' e'. start (c, e) = Some (c', e') \<and> scheduled_once (c', e')"
proof (cases "frameCallbacks e")
  case Nil
  with assms have "animationId c = None" by (simp add: scheduled_once_iff)
  with animate_scheduled_once [OF Nil, of "c\<lparr> isVisible := True \<rparr>"] show ?thesis
    by (auto simp: start_def truthy_def)
next
  case (Cons h hs)
  with assms have "animationId c = Some h" "h \<noteq> 0" "isVisible c" "hs = []"
    by (auto simp: scheduled_once_iff)
  with Cons show ?thesis
    by (simp add: start_def truthy_def scheduled_once_iff)
qed

lemma start_noop:
  assumes "scheduled_once (c, e)" "frameCallbacks e \<noteq> []"
  shows "start (c, e) = Some (c, e)"
  using assms by (auto simp: start_def scheduled_once_iff truthy_def)

lemma stop_stopped:
  assumes "scheduled_once (c, e)"
  shows "\<not> isVisible (fst (stop (c, e))) \<and> animationId (fst (stop (c, e))) = None \<and>
     frameCallbacks (snd (stop (c, e))) = [] \<and>
     frameTrace (snd (stop (c, e))) = frameTrace e"
  using assms
  by (auto simp: stop_def scheduled_once_iff truthy_def cancelAnimationFrame_def record_call_def
      frameTrace_def Let_def split: option.splits)

lemma stopped_scheduled_once:
  "frameCallbacks e = [] \<Longrightarrow> animationId c = None \<Longrightarrow> scheduled_once (c, e)"
  by (simp add: scheduled_once_iff)

lemma resize_frame: "frameCallbacks (resize e) = frameCallbacks e" "frameTrace (resize e) = frameTrace e"
  by (simp_all add: resize_def record_call_def Let_def frameTrace_def)

lemma handle_scheduled_once:
  assumes "scheduled_once (c, e)"
  shows "\<exists>c' e'. handle ev (c, e) = Some (c', e') \<and> scheduled_once (c', e')"
proof (cases ev)
  case Start
  with start_scheduled_once [OF assms] show ?thesis by simp
next
  case Stop
  with stop_stopped [OF assms] show ?thesis
    by (cases "stop (c, e)") (simp add: stopped_scheduled_once)
next
  case (Frame h)
  show ?thesis
  proof (cases "h \<in> set (frameCallbacks e)")
    case True
    with assms have "removeAll h (frameCallbacks e) = []" and v: "isVisible c"
      by (auto simp: scheduled_once_iff)
    then have "frameCallbacks (e\<lparr> frameCallbacks := removeAll h (frameCallbacks e) \<rparr>) = []" by simp
    from animate_scheduled_once [OF this v] True Frame show ?thesis by auto
  next
    case False
    with assms Frame show ?thesis by simp
  qed
next
  case (MouseMove a b)
  with assms show ?thesis by (simp add: scheduled_once_iff)
next
  case MouseLeave
  with assms show ?thesis by (simp add: scheduled_once_iff)
next
  case (VisibilityChange hidden)
  show ?thesis
  proof (cases hidden)
    case True
    with VisibilityChange stop_stopped [OF assms] show ?thesis
      by (cases "stop (c, e)") (simp add: stopped_scheduled_once)
  next
    case False
    with VisibilityChange start_scheduled_once [OF assms] show ?thesis by simp
  qed
next
  case (ViewportResized a b)
  with assms show ?thesis by (simp add: scheduled_once_iff)
next
  case ResizeCallback
  with assms show ?thesis
    by (simp add: scheduled_once_iff initParticles_store_def Let_def resize_frame)
qed

lemma deliver_page_ok:
  assumes "page_ok s"
  shows "\<exists>s'. deliver ev s = Some s' \<and> page_ok s'"
proof (cases s)
  case (Pair so e)
  show ?thesis
  proof (cases so)
    case None
    with Pair assms show ?thesis by (cases ev) (simp_all add: page_ok_def)
  next
    case (Some c)
    with Pair assms have "scheduled_once (c, e)" by (simp add: page_ok_def)
    from handle_scheduled_once [OF this, of ev] Pair Some show ?thesis
      by (auto simp: page_ok_def)
  qed
qed

lemma run_page_ok:
  assumes "page_ok s"
  shows "\<exists>s'. run evs s = Some s' \<and> page_ok s'"
  using assms
proof (induction evs arbitrary: s)
  case Nil
  then show ?case by simp
next
  case (Cons ev evs)
  from deliver_page_ok [OF Cons.prems, of ev] obtain s1 where "deliver ev s = Some s1" "page_ok s1"
    by blast
  with Cons.IH [of s1] show ?case by simp
qed

lemma createParticleSystem_frame:
  "frameCallbacks (snd (createParticleSystem e)) = frameCallbacks e"
  by (simp add: createParticleSystem_def Let_def record_call_def initParticles_store_def resize_def)

lemma createParticleSystem_fresh:
  "createParticleSystem e = (Some c, e') \<Longrightarrow> animationId c = None \<and> isVisible c"
  by (auto simp: createParticleSystem_def Let_def initParticles_store_def split: if_splits)

lemma initParticles_exported_page_ok:
  assumes "frameCallbacks e = []"
  shows "\<exists>s. initParticles_exported e = Some s \<and> page_ok s"
proof (cases "reducedMotion e \<or> \<not> canvasPresent e")
  case True
  with assms show ?thesis
    by (auto simp: initParticles_exported_def Let_def record_call_def page_ok_def)
next
  case False
  let ?e2 = "record_call GetElementById (record_call MatchMedia e)"
  obtain so e3 where cps: "createParticleSystem ?e2 = (so, e3)" by (cases "createParticleSystem ?e2")
  with createParticleSystem_frame [of ?e2] assms have f: "frameCallbacks e3 = []"
    by (simp add: record_call_def)
  show ?thesis
  proof (cases so)
    case None
    with False cps f show ?thesis by (simp add: initParticles_exported_def Let_def page_ok_def)
  next
    case (Some c)
    from cps Some have "animationId c = None" by (simp add: createParticleSystem_fresh)
    from start_scheduled_once [OF stopped_scheduled_once [OF f this]] False cps Some
    show ?thesis by (auto simp: initParticles_exported_def Let_def page_ok_def)
  qed
qed

lemma page_page_ok:
  assumes "frameCallbacks e = []"
  shows "\<exists>s. page e evs = Some s \<and> page_ok s"
proof -
  from initParticles_exported_page_ok [OF assms] obtain s0 where "initParticles_exported e = Some s0" "page_ok s0"
    by blast
  with run_page_ok [of s0 evs] show ?thesis by (simp add: page_def)
qed

lemma run_append: "run (evs @ evs') s = run evs s \<bind> run evs'"
  by (induction evs arbitrary: s) (simp_all split: Option.bind_split)

lemma page_append: "page e (evs @ evs') = page e evs \<bind> run evs'"
  by (simp add: page_def run_append)

lemma page_ok_length: "page_ok (so, e) \<Longrightarrow> length (frameCallbacks e) \<le> 1"
  by (cases so) (auto simp: page_ok_def scheduled_once_iff)

lemma page_ok_start_noop:
  "page_ok (Some c, e) \<Longrightarrow> frameCallbacks e \<noteq> [] \<Longrightarrow> start (c, e) = Some (c, e)"
  by (simp add: page_ok_def start_noop)

lemma start_twice:
  assumes "scheduled_once (c, e)"
  shows "start (c, e) \<bind> start = start (c, e)"
proof -
  from start_scheduled_once [OF assms] obtain c' e' where
    s: "start (c, e) = Some (c', e')" and i: "scheduled_once (c', e')" by blast
  have "isVisible c'"
    using s i animate_visible [of "c\<lparr> isVisible := True \<rparr>" e]
    by (auto simp: start_def Let_def split: if_splits)
  moreover have "truthy (animationId c')"
    using s animate_visible [of "c\<lparr> isVisible := True \<rparr>" e]
    by (auto simp: start_def Let_def truthy_def split: if_splits)
  ultimately have "start (c', e') = Some (c', e')"
    by (simp add: start_def)
  with s show ?thesis by simp
qed

lemma deliver_start_twice:
  assumes "page_ok s"
  shows "run [Start, Start] s = run [Start] s"
proof (cases s)
  case (Pair so e)
  show ?thesis
  proof (cases so)
    case None
    with Pair show ?thesis by simp
  next
    case (Some c)
    with Pair assms have i: "scheduled_once (c, e)" by (simp add: page_ok_def)
    from start_scheduled_once [OF i] obtain c' e' where
      s: "start (c, e) = Some (c', e')" by blast
    with start_twice [OF i] have "start (c', e') = Some (c', e')" by simp
    with s Pair Some show ?thesis by simp
  qed
qed

text \<open>
  C4. From a page with no frame callback of the module scheduled, after the exported
  initializer and any sequence of events, at most one frame callback is scheduled.
  Whenever one is, that is while the loop is running, a call of \<^verbatim>\<open>start\<close> changes
  nothing; and a second call of \<^verbatim>\<open>start\<close> right after a first one changes nothing.
\<close>

theorem one_outstanding_frame:
  assumes "frameCallbacks e0 = []"
  shows "(\<exists>so e. page e0 evs = Some (so, e) \<and> length (frameCallbacks e) \<le> 1 \<and>
            (\<forall>c. so = Some c \<and> frameCallbacks e \<noteq> [] \<longrightarrow> start (c, e) = Some (c, e))) \<and>
         page e0 (evs @ [Start, Start]) = page e0 (evs @ [Start])"
proof
  from page_page_ok [OF assms, of evs] obtain so e where
    p: "page e0 evs = Some (so, e)" and ok: "page_ok (so, e)" by (metis surj_pair)
  show "\<exists>so e. page e0 evs = Some (so, e) \<and> length (frameCallbacks e) \<le> 1 \<and>
            (\<forall>c. so = Some c \<and> frameCallbacks e \<noteq> [] \<longrightarrow> start (c, e) = Some (c, e))"
    using p ok page_ok_length [OF ok] by (auto simp: page_ok_start_noop)
  show "page e0 (evs @ [Start, Start]) = page e0 (evs @ [Start])"
    using p deliver_start_twice [OF ok] by (simp only: page_append) simp
qed

theorem one_outstanding_frame_witness:
  "frameCallbacks examplePage = [] \<and>
   (\<exists>so e. page examplePage [Frame 1, Start, Stop, Start, Start] = Some (so, e) \<and>
      length (frameCallbacks e) \<le> 1) \<and>
   page examplePage ([Frame 1] @ [Start, Start]) = page examplePage ([Frame 1] @ [Start])"
proof -
  have h: "frameCallbacks examplePage = []" by (simp add: examplePage_def)
  from one_outstanding_frame [OF h, of "[Frame 1, Start, Stop, Start, Start]"]
    one_outstanding_frame [OF h, of "[Frame 1]"] h
  show ?thesis by blast
qed

subsection \<open>After a stop\<close>

lemma frameTrace_draws: "frameTrace (e\<lparr> draws := n \<rparr>) = frameTrace e"
  by (simp add: frameTrace_def)

lemma deliver_stopped:
  assumes "page_stopped s" "startless ev"
  shows "\<exists>s'. deliver ev s = Some s' \<and> page_stopped s' \<and> frameTrace (snd s') = frameTrace (snd s)"
proof (cases s)
  case (Pair so e)
  show ?thesis
  proof (cases so)
    case None
    with Pair assms show ?thesis by (cases ev) (simp_all add: page_stopped_def frameTrace_def)
  next
    case (Some c)
    with Pair assms have st: "\<not> isVisible c" "frameCallbacks e = []"
      by (simp_all add: page_stopped_def)
    have stop: "\<not> isVisible (fst (stop (c, e))) \<and> frameCallbacks (snd (stop (c, e))) = [] \<and>
        frameTrace (snd (stop (c, e))) = frameTrace e"
      using st
      by (auto simp: stop_def truthy_def cancelAnimationFrame_def record_call_def
          frameTrace_def Let_def split: option.splits)
    show ?thesis
    proof (cases ev)
      case Start
      with assms show ?thesis by simp
    next
      case Stop
      with stop Pair Some show ?thesis
        by (cases "stop (c, e)") (simp add: page_stopped_def)
    next
      case (Frame h)
      with st Pair Some show ?thesis by (simp add: page_stopped_def)
    next
      case (MouseMove a b)
      with st Pair Some show ?thesis by (simp add: page_stopped_def frameTrace_def)
    next
      case MouseLeave
      with st Pair Some show ?thesis by (simp add: page_stopped_def frameTrace_def)
    next
      case (VisibilityChange hidden)
      with assms stop Pair Some show ?thesis
        by (cases "stop (c, e)") (simp add: page_stopped_def)
    next
      case (ViewportResized a b)
      with st Pair Some show ?thesis by (simp add: page_stopped_def frameTrace_def)
    next
      case ResizeCallback
      with st Pair Some show ?thesis
        by (simp add: page_stopped_def initParticles_store_def Let_def resize_frame
            frameTrace_draws)
    qed
  qed
qed

lemma run_stopped:
  assumes "page_stopped s" "list_all startless evs"
  shows "\<exists>s'. run evs s = Some s' \<and> page_stopped s' \<and> frameTrace (snd s') = frameTrace (snd s)"
  using assms
proof (induction evs arbitrary: s)
  case Nil
  then show ?case by simp
next
  case (Cons ev evs)
  from Cons.prems deliver_stopped [of s ev] obtain s1 where
    1: "deliver ev s = Some s1" "page_stopped s1" "frameTrace (snd s1) = frameTrace (snd s)"
    by auto
  from Cons.IH [OF 1(2)] Cons.prems obtain s' where
    "run evs s1 = Some s'" "page_stopped s'" "frameTrace (snd s') = frameTrace (snd s1)"
    by auto
  with 1 show ?case by simp
qed

lemma deliver_Stop_stopped:
  assumes "page_ok s"
  shows "\<exists>s'. deliver Stop s = Some s' \<and> page_stopped s'"
proof (cases s)
  case (Pair so e)
  show ?thesis
  proof (cases so)
    case None
    with Pair assms show ?thesis by (simp add: page_ok_def page_stopped_def)
  next
    case (Some c)
    with Pair assms have "scheduled_once (c, e)" by (simp add: page_ok_def)
    from stop_stopped [OF this] Pair Some show ?thesis
      by (cases "stop (c, e)") (simp add: page_stopped_def)
  qed
qed

text \<open>
  C5. From a page with no frame callback of the module scheduled, after the exported
  initializer, any events and then \<^verbatim>\<open>stop\<close>: no frame callback is scheduled any more, so
  none can fire; and whatever events follow, as long as none of them calls \<^verbatim>\<open>start\<close>,
  still none is scheduled and the trace gains no physics step, no call of the renderer
  and no frame request.
\<close>

theorem no_frames_after_stop:
  assumes "frameCallbacks e0 = []" "list_all startless evs'"
  shows "\<exists>s1 e1 s2 e2.
     page e0 (evs @ [Stop]) = Some (s1, e1) \<and>
     page e0 (evs @ Stop # evs') = Some (s2, e2) \<and>
     frameCallbacks e1 = [] \<and> frameCallbacks e2 = [] \<and> frameTrace e2 = frameTrace e1"
proof -
  from page_page_ok [OF assms(1), of evs] obtain s where
    p: "page e0 evs = Some s" and ok: "page_ok s" by blast
  from deliver_Stop_stopped [OF ok] obtain s1 where
    d: "deliver Stop s = Some s1" and st: "page_stopped s1" by blast
  from run_stopped [OF st assms(2)] obtain s2 where
    r: "run evs' s1 = Some s2" and st2: "page_stopped s2"
    and tr: "frameTrace (snd s2) = frameTrace (snd s1)" by blast
  have 1: "page e0 (evs @ [Stop]) = Some s1"
    using p d by (simp add: page_append)
  have 2: "page e0 (evs @ Stop # evs') = Some s2"
    using p d r by (simp add: page_append)
  have "frameCallbacks (snd s1) = []" "frameCallbacks (snd s2) = []"
    using st st2 by (auto simp: page_stopped_def split: prod.splits option.splits)
  with 1 2 tr show ?thesis
    by (cases s1, cases s2) auto
qed

theorem no_frames_after_stop_witness:
  "frameCallbacks examplePage = [] \<and>
   list_all startless [Frame 1, MouseMove 5 5, Frame 2, ResizeCallback, VisibilityChange True] \<and>
   (\<exists>s1 e1 s2 e2.
      page examplePage ([Frame 1] @ [Stop]) = Some (s1, e1) \<and>
      page examplePage ([Frame 1] @ Stop #
          [Frame 1, MouseMove 5 5, Frame 2, ResizeCallback, VisibilityChange True])
        = Some (s2, e2) \<and>
      frameCallbacks e1 = [] \<and> frameCallbacks e2 = [] \<and> frameTrace e2 = frameTrace e1)"
proof -
  have h: "frameCallbacks examplePage = []" by (simp add: examplePage_def)
  have q: "list_all startless
      [Frame 1, MouseMove 5 5, Frame 2, ResizeCallback, VisibilityChange True]" by simp
  from no_frames_after_stop [OF h q, of "[Frame 1]"] h q show ?thesis by blast
qed

subsection \<open>A page where the module stays inert\<close>

lemma run_inert:
  "\<exists>e'. run evs (None, e) = Some (None, e') \<and> calls e' = calls e \<and>
     frameCallbacks e' = frameCallbacks e"
proof (induction evs arbitrary: e)
  case Nil
  show ?case by simp
next
  case (Cons ev evs)
  show ?case
  proof (cases ev)
    case (ViewportResized a b)
    with Cons [of "e\<lparr> innerWidth := a, innerHeight := b \<rparr>"] show ?thesis by simp
  qed (use Cons [of e] in simp_all)
qed

text \<open>
  C8. With the reduced-motion preference set, the exported initializer returns after
  its query of the preference: that query is the only call it makes (no canvas lookup,
  no context, nothing painted, no frame requested), there is no particle system, and no
  later event makes a call or schedules a frame.
\<close>

theorem reduced_motion_inert:
  assumes "reducedMotion e"
  shows "initParticles_exported e = Some (None, e\<lparr> calls := calls e @ [MatchMedia] \<rparr>) \<and>
    (\<exists>e'. page e evs = Some (None, e') \<and> calls e' = calls e @ [MatchMedia] \<and>
        frameCallbacks e' = frameCallbacks e)"
proof
  show i: "initParticles_exported e = Some (None, e\<lparr> calls := calls e @ [MatchMedia] \<rparr>)"
    using assms by (simp add: initParticles_exported_def record_call_def)
  show "\<exists>e'. page e evs = Some (None, e') \<and> calls e' = calls e @ [MatchMedia] \<and>
        frameCallbacks e' = frameCallbacks e"
    using run_inert [of evs "e\<lparr> calls := calls e @ [MatchMedia] \<rparr>"] i
    by (auto simp: page_def)
qed

theorem reduced_motion_inert_witness:
  "reducedMotion (examplePage\<lparr> reducedMotion := True \<rparr>) \<and>
   initParticles_exported (examplePage\<lparr> reducedMotion := True \<rparr>)
     = Some (None, examplePage\<lparr> reducedMotion := True, calls := [MatchMedia] \<rparr>)"
  using reduced_motion_inert [of "examplePage\<lparr> reducedMotion := True \<rparr>" "[]"]
  by (simp add: examplePage_def)

text \<open>
  C9. When the canvas gives no 2D context, \<^verbatim>\<open>createParticleSystem\<close> returns \<^verbatim>\<open>null\<close>
  after that one call: no closure state, no listener. The exported initializer, which
  tests the handle before calling \<^verbatim>\<open>start\<close>, then ends with no particle system, having
  made only its queries, and no later event makes a call or schedules a frame.
\<close>

theorem no_context_inert:
  assumes "\<not> contextAvailable e"
  shows "createParticleSystem e = (None, e\<lparr> calls := calls e @ [GetContext] \<rparr>) \<and>
    (\<exists>e'. page e evs = Some (None, e') \<and>
        calls e' = calls e @
          (if reducedMotion e then [MatchMedia]
           else if \<not> canvasPresent e then [MatchMedia, GetElementById]
           else [MatchMedia, GetElementById, GetContext]) \<and>
        frameCallbacks e' = frameCallbacks e)"
proof
  show "createParticleSystem e = (None, e\<lparr> calls := calls e @ [GetContext] \<rparr>)"
    using assms by (simp add: createParticleSystem_def record_call_def)
  have "\<exists>e1. initParticles_exported e = Some (None, e1) \<and>
     calls e1 = calls e @
          (if reducedMotion e then [MatchMedia]
           else if \<not> canvasPresent e then [MatchMedia, GetElementById]
           else [MatchMedia, GetElementById, GetContext]) \<and>
     frameCallbacks e1 = frameCallbacks e"
    using assms
    by (simp add: initParticles_exported_def createParticleSystem_def record_call_def Let_def)
  then obtain e1 where 1: "initParticles_exported e = Some (None, e1)"
    "calls e1 = calls e @
          (if reducedMotion e then [MatchMedia]
           else if \<not> canvasPresent e then [MatchMedia, GetElementById]
           else [MatchMedia, GetElementById, GetContext])"
    "frameCallbacks e1 = frameCallbacks e" by blast
  from run_inert [of evs e1] obtain e' where "run evs (None, e1) = Some (None, e')"
    "calls e' = calls e1" "frameCallbacks e' = frameCallbacks e1" by blast
  with 1 show "\<exists>e'. page e evs = Some (None, e') \<and>
        calls e' = calls e @
          (if reducedMotion e then [MatchMedia]
           else if \<not> canvasPresent e then [MatchMedia, GetElementById]
           else [MatchMedia, GetElementById, GetContext]) \<and>
        frameCallbacks e' = frameCallbacks e"
    by (simp add: page_def)
qed

theorem no_context_inert_witness:
  "\<not> contextAvailable (examplePage\<lparr> contextAvailable := False \<rparr>) \<and>
   createParticleSystem (examplePage\<lparr> contextAvailable := False \<rparr>)
     = (None, examplePage\<lparr> contextAvailable := False, calls := [GetContext] \<rparr>) \<and>
   (\<exists>e'. page (examplePage\<lparr> contextAvailable := False \<rparr>) [Start, Frame 1] = Some (None, e') \<and>
      calls e' = [MatchMedia, GetElementById, GetContext] \<and> frameCallbacks e' = [])"
  using no_context_inert [of "examplePage\<lparr> contextAvailable := False \<rparr>" "[Start, Frame 1]"]
  by (simp add: examplePage_def)

end
